theory Spec2Isabelle
  imports Complex_Main
begin

section \<open>The tensor operations that \<^verbatim>\<open>synapse.py\<close> calls\<close>

text \<open>
  \<^verbatim>\<open>snet/core/synapse.py\<close> is written against torch tensors. A tensor is a shape (one
  extent per dimension) and its elements in row-major order; it is well formed when the
  number of elements is the product of the shape. Floating-point elements are idealised
  as reals and 0/1 mask elements as booleans. Every torch operation that can raise is a
  function into \<open>error + 'a\<close>, with the Python exception as the \<open>Inl\<close> value.
\<close>

datatype error =
    AttributeError string
  | IndexError
  | RuntimeError
  | NotImplementedError string

datatype 'a tensor = Tensor (shape: "nat list") (elems: "'a list")

definition wf_tensor :: "'a tensor \<Rightarrow> bool" where
  "wf_tensor x = (length (elems x) = prod_list (shape x))"

text \<open>\<open>blocks k n xs\<close>: the first \<open>k\<close> consecutive blocks of \<open>n\<close> elements of \<open>xs\<close>.\<close>

definition blocks :: "nat \<Rightarrow> nat \<Rightarrow> 'a list \<Rightarrow> 'a list list" where
  "blocks k n xs = map (\<lambda>i. take n (drop (i * n) xs)) [0..<k]"

subsection \<open>Broadcasting\<close>

text \<open>
  Two shapes are aligned at their last dimension; two aligned extents are compatible when
  they are equal or one of them is 1, and the result takes the extent that is not 1.
  \<open>broadcast_rev\<close> works on the reversed shapes, \<open>infer_size\<close> is the broadcast shape
  (\<open>None\<close> when the shapes are incompatible).
\<close>

fun broadcast_rev :: "nat list \<Rightarrow> nat list \<Rightarrow> nat list option" where
  "broadcast_rev [] ys = Some ys"
| "broadcast_rev (x # xs) [] = Some (x # xs)"
| "broadcast_rev (x # xs) (y # ys) =
     (if x = y \<or> x = 1 \<or> y = 1
      then map_option ((#) (if x = 1 then y else x)) (broadcast_rev xs ys)
      else None)"

definition infer_size :: "nat list \<Rightarrow> nat list \<Rightarrow> nat list option" where
  "infer_size a b = map_option rev (broadcast_rev (rev a) (rev b))"

text \<open>
  \<open>expand_elems ds rs xs\<close>: the elements of a tensor of shape \<open>ds\<close> expanded to shape
  \<open>rs\<close> of the same rank: a dimension of extent 1 is repeated, any other is kept.
\<close>

fun expand_elems :: "nat list \<Rightarrow> nat list \<Rightarrow> 'a list \<Rightarrow> 'a list" where
  "expand_elems (d # ds) (r # rs) xs =
     (let bs = map (\<lambda>b. expand_elems ds rs b) (blocks d (prod_list ds) xs)
      in if d = r then concat bs else concat (replicate r (concat bs)))"
| "expand_elems ds rs xs = xs"

definition pad_shape :: "nat \<Rightarrow> nat list \<Rightarrow> nat list" where
  "pad_shape n sh = replicate (n - length sh) 1 @ sh"

definition expand :: "nat list \<Rightarrow> 'a tensor \<Rightarrow> 'a list" where
  "expand r x = expand_elems (pad_shape (length r) (shape x)) r (elems x)"

text \<open>
  \<open>binop f a b\<close> is an elementwise binary operation of two tensors (\<^verbatim>\<open>a - b\<close>,
  \<^verbatim>\<open>a * b\<close>): both operands are broadcast to the common shape.

  \<open>binop_inplace f a b\<close> is the in-place form (\<^verbatim>\<open>a -= b\<close>, \<^verbatim>\<open>a &= b\<close>): the
  result is written into \<open>a\<close>, so the broadcast shape has to be the shape of \<open>a\<close>
  itself; torch raises RuntimeError ("output with shape ... doesn't match the broadcast
  shape ...") otherwise.
\<close>

definition binop :: "('a \<Rightarrow> 'b \<Rightarrow> 'c) \<Rightarrow> 'a tensor \<Rightarrow> 'b tensor \<Rightarrow> error + 'c tensor" where
  "binop f a b =
     (case infer_size (shape a) (shape b) of
        None \<Rightarrow> Inl RuntimeError
      | Some r \<Rightarrow> Inr (Tensor r (map2 f (expand r a) (expand r b))))"

definition binop_inplace :: "('a \<Rightarrow> 'b \<Rightarrow> 'a) \<Rightarrow> 'a tensor \<Rightarrow> 'b tensor \<Rightarrow> error + 'a tensor" where
  "binop_inplace f a b =
     (case infer_size (shape a) (shape b) of
        None \<Rightarrow> Inl RuntimeError
      | Some r \<Rightarrow>
          if r = shape a then Inr (Tensor r (map2 f (elems a) (expand r b)))
          else Inl RuntimeError)"

subsection \<open>Indexing with a boolean mask\<close>

text \<open>
  \<^verbatim>\<open>x[m]\<close> with a boolean mask \<open>m\<close>: the shape of the mask has to agree with the
  leading dimensions of \<open>x\<close> (IndexError otherwise). The result lists, in row-major
  order, the blocks of \<open>x\<close> at the positions where the mask is true: its shape is the
  number \<open>K\<close> of true positions followed by the dimensions of \<open>x\<close> that the mask does
  not cover. For a mask of the same shape as \<open>x\<close> that is a one-dimensional tensor of
  length \<open>K\<close>.
\<close>

definition mask_fits :: "bool tensor \<Rightarrow> 'a tensor \<Rightarrow> bool" where
  "mask_fits m x = (take (length (shape m)) (shape x) = shape m)"

definition getitem_mask :: "'a tensor \<Rightarrow> bool tensor \<Rightarrow> error + 'a tensor" where
  "getitem_mask x m =
     (if mask_fits m x then
        let rest = drop (length (shape m)) (shape x);
            sel = map snd (filter fst (zip (elems m)
                    (blocks (prod_list (shape m)) (prod_list rest) (elems x))))
        in Inr (Tensor (length sel # rest) (concat sel))
      else Inl IndexError)"

text \<open>\<^verbatim>\<open>x[m] = c\<close> for a Python number \<open>c\<close>: every selected element becomes \<open>c\<close>.\<close>

definition setitem_mask_scalar :: "'a tensor \<Rightarrow> bool tensor \<Rightarrow> 'a \<Rightarrow> error + 'a tensor" where
  "setitem_mask_scalar x m c =
     (if mask_fits m x then
        let rest = drop (length (shape m)) (shape x)
        in Inr (Tensor (shape x)
             (concat (map2 (\<lambda>b blk. if b then map (\<lambda>_. c) blk else blk) (elems m)
                (blocks (prod_list (shape m)) (prod_list rest) (elems x)))))
      else Inl IndexError)"

text \<open>
  \<^verbatim>\<open>x[m] = v\<close> for a tensor \<open>v\<close>: leading dimensions of extent 1 are dropped from
  \<open>v\<close>, which then has to expand to the shape of \<^verbatim>\<open>x[m]\<close> (RuntimeError otherwise);
  the expanded blocks replace the selected blocks of \<open>x\<close> in order.
\<close>

fun scatter :: "bool list \<Rightarrow> 'a list list \<Rightarrow> 'a list list \<Rightarrow> 'a list list" where
  "scatter (True # ms) (b # bs) (v # vs) = v # scatter ms bs vs"
| "scatter (False # ms) (b # bs) vs = b # scatter ms bs vs"
| "scatter ms bs vs = bs"

definition setitem_mask :: "'a tensor \<Rightarrow> bool tensor \<Rightarrow> 'a tensor \<Rightarrow> error + 'a tensor" where
  "setitem_mask x m v =
     (if mask_fits m x then
        let rest = drop (length (shape m)) (shape x);
            k = length (filter id (elems m));
            tgt = k # rest;
            vsh = dropWhile (\<lambda>d. d = 1) (shape v)
        in if infer_size tgt vsh = Some tgt then
             Inr (Tensor (shape x)
               (concat (scatter (elems m)
                  (blocks (prod_list (shape m)) (prod_list rest) (elems x))
                  (blocks k (prod_list rest) (expand tgt (Tensor vsh (elems v)))))))
           else Inl RuntimeError
      else Inl IndexError)"

subsection \<open>Constructors and shape operations\<close>

text \<open>\<^verbatim>\<open>torch.ones(n)\<close>, and \<^verbatim>\<open>torch.ger(a, b)\<close>, the outer product of two
  one-dimensional tensors (RuntimeError for any other rank), here of two masks.\<close>

definition ones :: "nat \<Rightarrow> real tensor" where
  "ones n = Tensor [n] (replicate n 1)"

definition ger :: "bool tensor \<Rightarrow> bool tensor \<Rightarrow> error + bool tensor" where
  "ger a b =
     (if length (shape a) = 1 \<and> length (shape b) = 1
      then Inr (Tensor (shape a @ shape b)
             (concat (map (\<lambda>x. map (\<lambda>y. x \<and> y) (elems b)) (elems a))))
      else Inl RuntimeError)"

text \<open>
  \<open>repeat k x\<close> is \<^verbatim>\<open>x.repeat(k, 1)\<close>: the tensor, read as a matrix (a vector of
  length \<open>n\<close> as \<open>1 \<times> n\<close>), is tiled \<open>k\<close> times along dimension 0; a tensor of more
  than two dimensions is a RuntimeError. \<open>t x\<close> is \<^verbatim>\<open>x.t()\<close>, the transpose of a
  matrix (tensors of fewer dimensions are returned as they are, more dimensions are a
  RuntimeError).
\<close>

definition repeat :: "nat \<Rightarrow> 'a tensor \<Rightarrow> error + 'a tensor" where
  "repeat k x =
     (if length (shape x) \<le> 2
      then let sh = pad_shape 2 (shape x)
           in Inr (Tensor [k * sh ! 0, sh ! 1] (concat (replicate k (elems x))))
      else Inl RuntimeError)"

definition t :: "'a tensor \<Rightarrow> error + 'a tensor" where
  "t x =
     (case shape x of
        [a, b] \<Rightarrow> Inr (Tensor [b, a]
                    (concat (map (\<lambda>j. map (\<lambda>i. elems x ! (i * b + j)) [0..<a]) [0..<b])))
      | [] \<Rightarrow> Inr x
      | [a] \<Rightarrow> Inr x
      | _ \<Rightarrow> Inl RuntimeError)"

text \<open>
  \<^verbatim>\<open>torch.matmul(a, b)\<close>. Both operands need at least one dimension. A vector on the
  left is read as a \<open>1 \<times> k\<close> matrix, a vector on the right as \<open>k \<times> 1\<close>, and the added
  dimension is dropped from the result. The last two dimensions are multiplied as
  matrices (their inner extents have to agree); the dimensions before them are batch
  dimensions and are broadcast.
\<close>

definition mm :: "nat \<Rightarrow> nat \<Rightarrow> nat \<Rightarrow> real list \<Rightarrow> real list \<Rightarrow> real list" where
  "mm n k m a b =
     concat (map (\<lambda>i. map (\<lambda>j. \<Sum>l\<leftarrow>[0..<k]. a ! (i * k + l) * b ! (l * m + j)) [0..<m]) [0..<n])"

definition matmul :: "real tensor \<Rightarrow> real tensor \<Rightarrow> error + real tensor" where
  "matmul a b =
     (if shape a = [] \<or> shape b = [] then Inl RuntimeError
      else
        let sa = (if length (shape a) = 1 then 1 # shape a else shape a);
            sb = (if length (shape b) = 1 then shape b @ [1] else shape b);
            ba = butlast (butlast sa); n = last (butlast sa); k = last sa;
            bb = butlast (butlast sb); k' = last (butlast sb); m = last sb
        in if k \<noteq> k' then Inl RuntimeError
           else case infer_size ba bb of
                  None \<Rightarrow> Inl RuntimeError
                | Some bs \<Rightarrow>
                    Inr (Tensor
                      (bs @ (if length (shape a) = 1 then [] else [n])
                          @ (if length (shape b) = 1 then [] else [m]))
                      (concat (map2 (mm n k m)
                         (expand_elems (pad_shape (length bs) ba) bs
                            (blocks (prod_list ba) (n * k) (elems a)))
                         (expand_elems (pad_shape (length bs) bb) bs
                            (blocks (prod_list bb) (k * m) (elems b)))))))"

section \<open>The synapse\<close>

text \<open>
  Modelled from the spec: the classes Layer and Network are collaborators that
  \<^verbatim>\<open>synapse.py\<close> only reads and writes through attributes. A layer exposes
  \<^verbatim>\<open>size\<close>, \<^verbatim>\<open>o\<close>, \<^verbatim>\<open>i\<close> and \<^verbatim>\<open>firing_mask\<close>, a network exposes \<^verbatim>\<open>time\<close>. The
  field names carry a suffix where the attribute's name is taken in HOL.
\<close>

record layer =
  size_l :: nat
  o_l :: "real tensor"
  i_l :: "real tensor"
  firing_mask :: "bool tensor"

record network =
  time :: real

text \<open>
  The attributes of a synapse object. \<^verbatim>\<open>__init__\<close> assigns the first nine; \<^verbatim>\<open>tau_m\<close>,
  \<^verbatim>\<open>tau_p\<close>, \<^verbatim>\<open>learn_rate_m\<close> and \<^verbatim>\<open>learn_rate_p\<close> are read by the update hooks
  and assigned nowhere in the file (the constructor of ExponentialSTDPSynapse ends in
  "TODO: parse learning rate options"), so each of them is \<open>None\<close> until a caller sets
  it on the object, and reading \<open>None\<close> is Python's AttributeError.
\<close>

record synapse =
  pre_layer :: layer
  post_layer :: layer
  weights :: "real tensor"
  w_min :: real
  w_max :: real
  network :: network
  last_pre_spike_time :: "real tensor"
  last_post_spike_time :: "real tensor"
  static :: bool
  tau_m :: "real option"
  tau_p :: "real option"
  learn_rate_m :: "real option"
  learn_rate_p :: "real option"

definition getattr :: "string \<Rightarrow> 'a option \<Rightarrow> error + 'a" where
  "getattr name v = (case v of None \<Rightarrow> Inl (AttributeError name) | Some x \<Rightarrow> Inr x)"

text \<open>
  A call that raises leaves the object as mutated so far: the outcome of a method is
  either the exception with the state at the raise, or the state at the return.
\<close>

type_synonym outcome = "(error \<times> synapse) + synapse"

definition state_after :: "outcome \<Rightarrow> synapse" where
  "state_after r = (case r of Inl (e, s) \<Rightarrow> s | Inr s \<Rightarrow> s)"

subsection \<open>AbstractSynapse\<close>

text \<open>\<^verbatim>\<open>__init__\<close> (lines 18-41) checks nothing and has no raising path.\<close>

definition AbstractSynapse_init ::
  "layer \<Rightarrow> layer \<Rightarrow> real tensor \<Rightarrow> network \<Rightarrow> error + synapse" where
  "AbstractSynapse_init pre post w net =
     Inr \<lparr> pre_layer = pre, post_layer = post,
           weights = w, w_min = 0, w_max = 1,
           network = net,
           last_pre_spike_time = map_tensor uminus (ones (size_l pre)),
           last_post_spike_time = map_tensor uminus (ones (size_l post)),
           static = False,
           tau_m = None, tau_p = None, learn_rate_m = None, learn_rate_p = None \<rparr>"

definition forward :: "synapse \<Rightarrow> outcome" where
  "forward s =
     (let pre = o_l (pre_layer s)
      in case matmul pre (weights s) of
           Inl e \<Rightarrow> Inl (e, s)
         | Inr v \<Rightarrow> Inr (s\<lparr>post_layer := (post_layer s)\<lparr>i_l := v\<rparr>\<rparr>))"

definition clamp :: "synapse \<Rightarrow> synapse" where
  "clamp s = s\<lparr>weights := map_tensor (\<lambda>x. min (max x (w_min s)) (w_max s)) (weights s)\<rparr>"

definition AbstractSynapse_update_on_pre_spikes :: "synapse \<Rightarrow> outcome" where
  "AbstractSynapse_update_on_pre_spikes s =
     Inl (NotImplementedError ''update_on_pre_spikes() is not implemented.'', s)"

definition AbstractSynapse_update_on_post_spikes :: "synapse \<Rightarrow> outcome" where
  "AbstractSynapse_update_on_post_spikes s =
     Inl (NotImplementedError ''update_on_post_spikes() is not implemented.'', s)"

subsection \<open>ExponentialSTDPSynapse\<close>

definition ExponentialSTDPSynapse_init ::
  "layer \<Rightarrow> layer \<Rightarrow> real tensor \<Rightarrow> network \<Rightarrow> error + synapse" where
  "ExponentialSTDPSynapse_init pre post w net = AbstractSynapse_init pre post w net"

text \<open>
  \<open>bind\<close> chains the statements of a method body: the first exception ends it.
\<close>

definition bind :: "error + 'a \<Rightarrow> ('a \<Rightarrow> error + 'b) \<Rightarrow> error + 'b" where
  "bind r f = (case r of Inl e \<Rightarrow> Inl e | Inr x \<Rightarrow> f x)"

text \<open>
  \<^verbatim>\<open>update_on_pre_spikes\<close>, lines 97-109 up to the in-place subtraction: the part of
  the body between the two mutations of the object. It yields the mask \<^verbatim>\<open>active\<close>
  and the tensor that line 109 is about to store:
  \<^item> \<open>pre_dt\<close> is \<^verbatim>\<open>dt\<close> (lines 101-102);
  \<^item> \<open>pre_active\<close> is lines 97-105: \<^verbatim>\<open>active\<close> after line 105, with \<^verbatim>\<open>dt\<close>;
  \<^item> \<open>pre_dw\<close> is \<^verbatim>\<open>dw\<close> (line 108): \<^verbatim>\<open>self.weights[active]\<close> lists the selected
    weights, while \<^verbatim>\<open>torch.exp(-dt / self.tau_m)\<close> is the whole matrix;
  \<^item> \<open>pre_new_values\<close> is the first half of line 109, \<^verbatim>\<open>self.weights[active] -= dw\<close>:
    Python reads \<^verbatim>\<open>self.weights[active]\<close>, subtracts \<^verbatim>\<open>dw\<close> from it in place, and
    only then stores the result under the mask.
\<close>

definition pre_dt :: "synapse \<Rightarrow> error + real tensor" where
  "pre_dt s =
     bind (repeat (size_l (post_layer s)) (last_pre_spike_time s)) (\<lambda>a.
     bind (t a) (\<lambda>a'.
     bind (repeat (size_l (pre_layer s)) (last_post_spike_time s)) (\<lambda>b.
     binop (-) a' b)))"

definition pre_active :: "synapse \<Rightarrow> error + bool tensor \<times> real tensor" where
  "pre_active s =
     (let post_active = map_tensor (\<lambda>x. x \<ge> 0) (last_post_spike_time s)
      in bind (ger (firing_mask (pre_layer s)) post_active) (\<lambda>active.
         bind (pre_dt s) (\<lambda>dt.
         bind (getattr ''tau_m'' (tau_m s)) (\<lambda>tau.
         let window_mask = map_tensor (\<lambda>x. x \<le> 2 * tau) dt
         in bind (binop_inplace (\<and>) active window_mask) (\<lambda>active'.
            Inr (active', dt))))))"

definition pre_dw :: "synapse \<Rightarrow> bool tensor \<Rightarrow> real tensor \<Rightarrow> error + real tensor" where
  "pre_dw s active dt =
     bind (getattr ''learn_rate_m'' (learn_rate_m s)) (\<lambda>lr.
     bind (getitem_mask (weights s) active) (\<lambda>w.
     bind (getattr ''tau_m'' (tau_m s)) (\<lambda>tau.
     binop (*) (map_tensor (\<lambda>x. lr * (x - w_min s)) w)
               (map_tensor (\<lambda>x. exp (- x / tau)) dt))))"

definition pre_new_values :: "synapse \<Rightarrow> error + bool tensor \<times> real tensor" where
  "pre_new_values s =
     bind (pre_active s) (\<lambda>(active, dt).
     bind (pre_dw s active dt) (\<lambda>dw.
     bind (getitem_mask (weights s) active) (\<lambda>w.
     bind (binop_inplace (-) w dw) (\<lambda>w'.
     Inr (active, w')))))"

definition update_on_pre_spikes :: "synapse \<Rightarrow> outcome" where
  "update_on_pre_spikes s =
     (if static s then Inr s
      else
        case setitem_mask_scalar (last_pre_spike_time s) (firing_mask (pre_layer s))
               (time (network s)) of
          Inl e \<Rightarrow> Inl (e, s)
        | Inr lp \<Rightarrow>
            (let s1 = s\<lparr>last_pre_spike_time := lp\<rparr>
             in (case pre_new_values s1 of
                   Inl e \<Rightarrow> Inl (e, s1)
                 | Inr (active, w') \<Rightarrow>
                     (case setitem_mask (weights s1) active w' of
                        Inl e \<Rightarrow> Inl (e, s1)
                      | Inr w \<Rightarrow> Inr (clamp (s1\<lparr>weights := w\<rparr>))))))"

text \<open>\<^verbatim>\<open>update_on_post_spikes\<close> (lines 112-133), split the same way.\<close>

definition post_dt :: "synapse \<Rightarrow> error + real tensor" where
  "post_dt s =
     bind (repeat (size_l (pre_layer s)) (last_post_spike_time s)) (\<lambda>a.
     bind (repeat (size_l (post_layer s)) (last_pre_spike_time s)) (\<lambda>b.
     bind (t b) (\<lambda>b'.
     binop (-) a b')))"

definition post_active :: "synapse \<Rightarrow> error + bool tensor \<times> real tensor" where
  "post_active s =
     (let pre_active = map_tensor (\<lambda>x. x \<ge> 0) (last_pre_spike_time s)
      in bind (ger pre_active (firing_mask (post_layer s))) (\<lambda>active.
         bind (post_dt s) (\<lambda>dt.
         bind (getattr ''tau_p'' (tau_p s)) (\<lambda>tau.
         let window_mask = map_tensor (\<lambda>x. x \<le> 2 * tau) dt
         in bind (binop_inplace (\<and>) active window_mask) (\<lambda>active'.
            Inr (active', dt))))))"

definition post_dw :: "synapse \<Rightarrow> bool tensor \<Rightarrow> real tensor \<Rightarrow> error + real tensor" where
  "post_dw s active dt =
     bind (getattr ''learn_rate_p'' (learn_rate_p s)) (\<lambda>lr.
     bind (getitem_mask (weights s) active) (\<lambda>w.
     bind (getattr ''tau_p'' (tau_p s)) (\<lambda>tau.
     binop (*) (map_tensor (\<lambda>x. lr * (w_max s - x)) w)
               (map_tensor (\<lambda>x. exp (- x / tau)) dt))))"

definition post_new_values :: "synapse \<Rightarrow> error + bool tensor \<times> real tensor" where
  "post_new_values s =
     bind (post_active s) (\<lambda>(active, dt).
     bind (post_dw s active dt) (\<lambda>dw.
     bind (getitem_mask (weights s) active) (\<lambda>w.
     bind (binop_inplace (+) w dw) (\<lambda>w'.
     Inr (active, w')))))"

definition update_on_post_spikes :: "synapse \<Rightarrow> outcome" where
  "update_on_post_spikes s =
     (if static s then Inr s
      else
        case setitem_mask_scalar (last_post_spike_time s) (firing_mask (post_layer s))
               (time (network s)) of
          Inl e \<Rightarrow> Inl (e, s)
        | Inr lp \<Rightarrow>
            (let s1 = s\<lparr>last_post_spike_time := lp\<rparr>
             in (case post_new_values s1 of
                   Inl e \<Rightarrow> Inl (e, s1)
                 | Inr (active, w') \<Rightarrow>
                     (case setitem_mask (weights s1) active w' of
                        Inl e \<Rightarrow> Inl (e, s1)
                      | Inr w \<Rightarrow> Inr (clamp (s1\<lparr>weights := w\<rparr>))))))"

section \<open>Sequences of calls\<close>

text \<open>
  Modelled from the spec: the scheduler is not part of \<^verbatim>\<open>synapse.py\<close>. It advances
  \<^verbatim>\<open>network.time\<close>, lets a layer publish its \<^verbatim>\<open>firing_mask\<close> or its output
  \<^verbatim>\<open>o\<close>, and then invokes one method of the synapse. An event is one such
  invocation; \<open>run\<close> is the state of the object after a sequence of them, whether a
  call returned or raised.
\<close>

datatype event =
    PreSpikes "bool tensor" real
  | PostSpikes "bool tensor" real
  | Forward "real tensor"

fun call :: "synapse \<Rightarrow> event \<Rightarrow> outcome" where
  "call s (PreSpikes fm tm) =
     update_on_pre_spikes
       (s\<lparr>pre_layer := (pre_layer s)\<lparr>firing_mask := fm\<rparr>, network := (network s)\<lparr>time := tm\<rparr>\<rparr>)"
| "call s (PostSpikes fm tm) =
     update_on_post_spikes
       (s\<lparr>post_layer := (post_layer s)\<lparr>firing_mask := fm\<rparr>, network := (network s)\<lparr>time := tm\<rparr>\<rparr>)"
| "call s (Forward out) =
     forward (s\<lparr>pre_layer := (pre_layer s)\<lparr>o_l := out\<rparr>\<rparr>)"

fun run :: "synapse \<Rightarrow> event list \<Rightarrow> synapse" where
  "run s [] = s"
| "run s (ev # evs) = run (state_after (call s ev)) evs"

text \<open>
  \<open>entry x p q\<close> is \<^verbatim>\<open>x[p][q]\<close> of a matrix; \<open>within_bounds s\<close> says that every
  weight lies in \<open>[w_min, w_max]\<close>.
\<close>

definition entry :: "'a tensor \<Rightarrow> nat \<Rightarrow> nat \<Rightarrow> 'a" where
  "entry x p q = elems x ! (p * (shape x ! 1) + q)"

definition within_bounds :: "synapse \<Rightarrow> bool" where
  "within_bounds s = list_all (\<lambda>x. w_min s \<le> x \<and> x \<le> w_max s) (elems (weights s))"

section \<open>Concrete synapses\<close>

text \<open>
  A layer of \<open>n\<close> neurons with the given firing mask, and the synapse that
  \<^verbatim>\<open>ExponentialSTDPSynapse(pre, post, weights, net)\<close> returns.
\<close>

definition layer_of :: "bool list \<Rightarrow> layer" where
  "layer_of fm =
     \<lparr> size_l = length fm,
       o_l = Tensor [length fm] (replicate (length fm) 0),
       i_l = Tensor [length fm] (replicate (length fm) 0),
       firing_mask = Tensor [length fm] fm \<rparr>"

definition constructed :: "layer \<Rightarrow> layer \<Rightarrow> real tensor \<Rightarrow> network \<Rightarrow> synapse" where
  "constructed pre post w net = projr (ExponentialSTDPSynapse_init pre post w net)"

text \<open>
  The synapse of the spec's numeric scenario: one pre and one post neuron, initial weight
  0.5, and the four rule parameters assigned on the object after construction.
\<close>

definition with_parameters :: "synapse \<Rightarrow> synapse" where
  "with_parameters s =
     s\<lparr>tau_m := Some 20, tau_p := Some 20, learn_rate_m := Some (1 / 10),
       learn_rate_p := Some (1 / 10)\<rparr>"

definition fresh_1x1 :: "real \<Rightarrow> synapse" where
  "fresh_1x1 w0 =
     constructed (layer_of [False]) (layer_of [False]) (Tensor [1, 1] [w0]) \<lparr>time = 0\<rparr>"

definition scenario :: synapse where
  "scenario = with_parameters (fresh_1x1 (1 / 2))"

text \<open>
  \<open>clamped s w\<close>: the tensor \<open>w\<close> is the result of \<^verbatim>\<open>clamp_\<close> with the bounds of \<open>s\<close>.
\<close>

definition clamped :: "synapse \<Rightarrow> real tensor \<Rightarrow> bool" where
  "clamped s w = (\<exists>v. w = map_tensor (\<lambda>x. min (max x (w_min s)) (w_max s)) v)"

text \<open>
  The inputs of the concrete evaluations below: the scenario synapse once its post neuron
  has fired at t = 5 (a pre spike then meets an eligible pair) and once its pre neuron has
  fired at t = 10 (a post spike then meets one), a synapse that starts out of bounds, and
  a \<open>1 \<times> 2\<close> synapse whose first weight starts out of bounds.
\<close>

definition post_fired :: synapse where
  "post_fired = scenario\<lparr>last_post_spike_time := Tensor [1] [5]\<rparr>"

definition pre_fired :: synapse where
  "pre_fired = scenario\<lparr>last_pre_spike_time := Tensor [1] [10]\<rparr>"

definition frozen_out_of_bounds :: synapse where
  "frozen_out_of_bounds = (fresh_1x1 (3 / 2))\<lparr>static := True\<rparr>"

definition fresh_1x2 :: synapse where
  "fresh_1x2 =
     constructed (layer_of [False]) (layer_of [False, False]) (Tensor [1, 2] [3 / 2, 1 / 2])
       \<lparr>time = 0\<rparr>"

text \<open>
  A \<open>1 \<times> 2\<close> synapse at t = 10 whose first post neuron fired at t = 5, whose second
  post neuron and whose pre neuron never fired, and a \<open>2 \<times> 2\<close> synapse with pre-layer
  output \<open>(1, 2)\<close>.
\<close>

definition one_silent :: synapse where
  "one_silent =
     (with_parameters
        (constructed (layer_of [True]) (layer_of [True, False]) (Tensor [1, 2] [1 / 2, 1 / 2])
           \<lparr>time = 10\<rparr>))
       \<lparr>last_post_spike_time := Tensor [2] [5, - 1]\<rparr>"

definition two_by_two :: synapse where
  "two_by_two =
     constructed ((layer_of [False, False])\<lparr>o_l := Tensor [2] [1, 2]\<rparr>)
       (layer_of [False, False]) (Tensor [2, 2] [1, 2, 3, 4]) \<lparr>time = 0\<rparr>"

section \<open>Shapes through the update hooks\<close>

lemma broadcast_rev_length:
  "broadcast_rev xs ys = Some r \<Longrightarrow> length r = max (length xs) (length ys)"
  by (induction xs ys arbitrary: r rule: broadcast_rev.induct) (auto split: if_splits)

lemma infer_size_length:
  "infer_size a b = Some r \<Longrightarrow> length r = max (length a) (length b)"
  by (auto simp: infer_size_def dest: broadcast_rev_length)

lemma bind_Inr_iff: "bind r f = Inr y \<longleftrightarrow> (\<exists>x. r = Inr x \<and> f x = Inr y)"
  by (cases r) (simp_all add: bind_def)

lemma shape_map_tensor [simp]: "shape (map_tensor f x) = shape x"
  by (cases x) simp

lemma elems_map_tensor [simp]: "elems (map_tensor f x) = map f (elems x)"
  by (cases x) simp

lemma repeat_rank: "repeat k x = Inr y \<Longrightarrow> length (shape y) = 2"
  by (auto simp: repeat_def Let_def split: if_splits)

lemma t_rank: "t x = Inr y \<Longrightarrow> length (shape y) = length (shape x)"
  by (auto simp: t_def split: list.splits)

lemma binop_rank:
  "binop f a b = Inr c \<Longrightarrow> length (shape c) = max (length (shape a)) (length (shape b))"
  by (auto simp: binop_def split: option.splits dest: infer_size_length)

lemma binop_inplace_shape: "binop_inplace f a b = Inr c \<Longrightarrow> shape c = shape a"
  by (auto simp: binop_inplace_def split: option.splits if_splits)

lemma binop_inplace_rank:
  "binop_inplace f a b = Inr c \<Longrightarrow> length (shape b) \<le> length (shape a)"
  by (auto simp: binop_inplace_def split: option.splits if_splits dest: infer_size_length)

lemma ger_rank: "ger a b = Inr c \<Longrightarrow> length (shape c) = 2"
  by (auto simp: ger_def split: if_splits)

lemma getitem_mask_rank:
  assumes "getitem_mask x m = Inr y"
  shows "Suc (length (shape x)) = length (shape y) + length (shape m)"
proof -
  from assms have f: "take (length (shape m)) (shape x) = shape m"
    by (simp add: getitem_mask_def mask_fits_def split: if_splits)
  from assms have y: "length (shape y) = Suc (length (shape x) - length (shape m))"
    by (auto simp: getitem_mask_def Let_def split: if_splits)
  have "length (take (length (shape m)) (shape x)) = length (shape m)"
    by (simp only: f)
  then have "length (shape m) \<le> length (shape x)" by simp
  with y show ?thesis by simp
qed

lemma pre_dt_rank: "pre_dt s = Inr dt \<Longrightarrow> length (shape dt) = 2"
  by (auto simp: pre_dt_def bind_Inr_iff dest!: repeat_rank t_rank binop_rank)

lemma pre_active_rank:
  "pre_active s = Inr (active, dt) \<Longrightarrow> length (shape active) = 2 \<and> length (shape dt) = 2"
  by (auto simp: pre_active_def Let_def bind_Inr_iff dest!: pre_dt_rank ger_rank binop_inplace_shape)

lemma pre_dw_rank:
  "pre_dw s active dt = Inr dw \<Longrightarrow> length (shape dt) \<le> length (shape dw)"
  by (auto simp: pre_dw_def bind_Inr_iff dest!: binop_rank)

lemma pre_new_values_Inr:
  assumes "pre_new_values s = Inr r"
  obtains active dt dw w w' where
    "pre_active s = Inr (active, dt)" "pre_dw s active dt = Inr dw"
    "getitem_mask (weights s) active = Inr w" "binop_inplace (-) w dw = Inr w'"
    "r = (active, w')"
proof -
  from assms obtain ad where a: "pre_active s = Inr ad"
    and rest: "(case ad of (active, dt) \<Rightarrow>
           bind (pre_dw s active dt) (\<lambda>dw. bind (getitem_mask (weights s) active)
             (\<lambda>w. bind (binop_inplace (-) w dw) (\<lambda>w'. Inr (active, w'))))) = Inr r"
    unfolding pre_new_values_def bind_Inr_iff by blast
  obtain active dt where ad: "ad = (active, dt)" by (cases ad)
  from rest[unfolded ad prod.case bind_Inr_iff] a ad that show ?thesis by blast
qed

lemma pre_new_values_matrix:
  assumes "length (shape (weights s)) \<le> 2"
  shows "\<exists>e. pre_new_values s = Inl e"
proof (cases "pre_new_values s")
  case (Inl e) then show ?thesis by blast
next
  case (Inr r)
  then obtain active dt dw w w' where
    a: "pre_active s = Inr (active, dt)" and d: "pre_dw s active dt = Inr dw"
    and g: "getitem_mask (weights s) active = Inr w" and i: "binop_inplace (-) w dw = Inr w'"
    by (rule pre_new_values_Inr)
  from pre_active_rank[OF a] pre_dw_rank[OF d] getitem_mask_rank[OF g] binop_inplace_rank[OF i] assms
  have False by linarith
  then show ?thesis ..
qed

lemma post_dt_rank: "post_dt s = Inr dt \<Longrightarrow> length (shape dt) = 2"
  by (auto simp: post_dt_def bind_Inr_iff dest!: repeat_rank t_rank binop_rank)

lemma post_active_rank:
  "post_active s = Inr (active, dt) \<Longrightarrow> length (shape active) = 2 \<and> length (shape dt) = 2"
  by (auto simp: post_active_def Let_def bind_Inr_iff dest!: post_dt_rank ger_rank binop_inplace_shape)

lemma post_dw_rank:
  "post_dw s active dt = Inr dw \<Longrightarrow> length (shape dt) \<le> length (shape dw)"
  by (auto simp: post_dw_def bind_Inr_iff dest!: binop_rank)

lemma post_new_values_Inr:
  assumes "post_new_values s = Inr r"
  obtains active dt dw w w' where
    "post_active s = Inr (active, dt)" "post_dw s active dt = Inr dw"
    "getitem_mask (weights s) active = Inr w" "binop_inplace (+) w dw = Inr w'"
    "r = (active, w')"
proof -
  from assms obtain ad where a: "post_active s = Inr ad"
    and rest: "(case ad of (active, dt) \<Rightarrow>
           bind (post_dw s active dt) (\<lambda>dw. bind (getitem_mask (weights s) active)
             (\<lambda>w. bind (binop_inplace (+) w dw) (\<lambda>w'. Inr (active, w'))))) = Inr r"
    unfolding post_new_values_def bind_Inr_iff by blast
  obtain active dt where ad: "ad = (active, dt)" by (cases ad)
  from rest[unfolded ad prod.case bind_Inr_iff] a ad that show ?thesis by blast
qed

lemma post_new_values_matrix:
  assumes "length (shape (weights s)) \<le> 2"
  shows "\<exists>e. post_new_values s = Inl e"
proof (cases "post_new_values s")
  case (Inl e) then show ?thesis by blast
next
  case (Inr r)
  then obtain active dt dw w w' where
    a: "post_active s = Inr (active, dt)" and d: "post_dw s active dt = Inr dw"
    and g: "getitem_mask (weights s) active = Inr w" and i: "binop_inplace (+) w dw = Inr w'"
    by (rule post_new_values_Inr)
  from post_active_rank[OF a] post_dw_rank[OF d] getitem_mask_rank[OF g] binop_inplace_rank[OF i] assms
  have False by linarith
  then show ?thesis ..
qed

text \<open>On a weight matrix, a hook that is not static always raises, with the weights untouched.\<close>

lemma update_on_pre_spikes_matrix:
  assumes "length (shape (weights s)) \<le> 2" and "\<not> static s"
  shows "\<exists>e s'. update_on_pre_spikes s = Inl (e, s') \<and> weights s' = weights s"
proof (cases "setitem_mask_scalar (last_pre_spike_time s) (firing_mask (pre_layer s)) (time (network s))")
  case (Inl e)
  with assms(2) show ?thesis by (simp add: update_on_pre_spikes_def)
next
  case (Inr lp)
  from assms(1) have "length (shape (weights (s\<lparr>last_pre_spike_time := lp\<rparr>))) \<le> 2" by simp
  from pre_new_values_matrix[OF this] obtain e where
    "pre_new_values (s\<lparr>last_pre_spike_time := lp\<rparr>) = Inl e" ..
  with Inr assms(2) show ?thesis by (simp add: update_on_pre_spikes_def)
qed

lemma update_on_post_spikes_matrix:
  assumes "length (shape (weights s)) \<le> 2" and "\<not> static s"
  shows "\<exists>e s'. update_on_post_spikes s = Inl (e, s') \<and> weights s' = weights s"
proof (cases "setitem_mask_scalar (last_post_spike_time s) (firing_mask (post_layer s)) (time (network s))")
  case (Inl e)
  with assms(2) show ?thesis by (simp add: update_on_post_spikes_def)
next
  case (Inr lp)
  from assms(1) have "length (shape (weights (s\<lparr>last_post_spike_time := lp\<rparr>))) \<le> 2" by simp
  from post_new_values_matrix[OF this] obtain e where
    "post_new_values (s\<lparr>last_post_spike_time := lp\<rparr>) = Inl e" ..
  with Inr assms(2) show ?thesis by (simp add: update_on_post_spikes_def)
qed

lemma update_on_pre_spikes_matrix_weights:
  "length (shape (weights s)) \<le> 2 \<Longrightarrow> weights (state_after (update_on_pre_spikes s)) = weights s"
proof (cases "static s")
  case True then show ?thesis by (simp add: update_on_pre_spikes_def state_after_def)
next
  case False
  assume "length (shape (weights s)) \<le> 2"
  from update_on_pre_spikes_matrix[OF this False] show ?thesis
    by (auto simp: state_after_def)
qed

lemma update_on_post_spikes_matrix_weights:
  "length (shape (weights s)) \<le> 2 \<Longrightarrow> weights (state_after (update_on_post_spikes s)) = weights s"
proof (cases "static s")
  case True then show ?thesis by (simp add: update_on_post_spikes_def state_after_def)
next
  case False
  assume "length (shape (weights s)) \<le> 2"
  from update_on_post_spikes_matrix[OF this False] show ?thesis
    by (auto simp: state_after_def)
qed

text \<open>What any call leaves alone, and the two ways it can leave the weights.\<close>

lemma update_on_pre_spikes_frame:
  "static (state_after (update_on_pre_spikes s)) = static s \<and>
   w_min (state_after (update_on_pre_spikes s)) = w_min s \<and>
   w_max (state_after (update_on_pre_spikes s)) = w_max s \<and>
   (weights (state_after (update_on_pre_spikes s)) = weights s \<or>
    clamped s (weights (state_after (update_on_pre_spikes s))))"
  by (auto simp: update_on_pre_spikes_def state_after_def clamp_def clamped_def Let_def
           split: sum.splits prod.splits)

lemma update_on_post_spikes_frame:
  "static (state_after (update_on_post_spikes s)) = static s \<and>
   w_min (state_after (update_on_post_spikes s)) = w_min s \<and>
   w_max (state_after (update_on_post_spikes s)) = w_max s \<and>
   (weights (state_after (update_on_post_spikes s)) = weights s \<or>
    clamped s (weights (state_after (update_on_post_spikes s))))"
  by (auto simp: update_on_post_spikes_def state_after_def clamp_def clamped_def Let_def
           split: sum.splits prod.splits)

lemma forward_frame:
  "static (state_after (forward s)) = static s \<and>
   w_min (state_after (forward s)) = w_min s \<and>
   w_max (state_after (forward s)) = w_max s \<and>
   weights (state_after (forward s)) = weights s \<and>
   last_pre_spike_time (state_after (forward s)) = last_pre_spike_time s \<and>
   last_post_spike_time (state_after (forward s)) = last_post_spike_time s"
  by (auto simp: forward_def state_after_def Let_def split: sum.splits)

lemma call_frame:
  "static (state_after (call s ev)) = static s \<and>
   w_min (state_after (call s ev)) = w_min s \<and>
   w_max (state_after (call s ev)) = w_max s \<and>
   (weights (state_after (call s ev)) = weights s \<or>
    clamped s (weights (state_after (call s ev))))"
proof (cases ev)
  case (PreSpikes fm tm)
  show ?thesis
    using update_on_pre_spikes_frame
      [of "s\<lparr>pre_layer := (pre_layer s)\<lparr>firing_mask := fm\<rparr>, network := (network s)\<lparr>time := tm\<rparr>\<rparr>"]
    by (simp add: PreSpikes clamped_def)
next
  case (PostSpikes fm tm)
  show ?thesis
    using update_on_post_spikes_frame
      [of "s\<lparr>post_layer := (post_layer s)\<lparr>firing_mask := fm\<rparr>, network := (network s)\<lparr>time := tm\<rparr>\<rparr>"]
    by (simp add: PostSpikes clamped_def)
next
  case (Forward out)
  show ?thesis
    using forward_frame [of "s\<lparr>pre_layer := (pre_layer s)\<lparr>o_l := out\<rparr>\<rparr>"]
    by (simp add: Forward)
qed

lemma call_static:
  assumes "static s"
  shows "weights (state_after (call s ev)) = weights s"
proof (cases ev)
  case (PreSpikes fm tm)
  with assms show ?thesis by (simp add: update_on_pre_spikes_def state_after_def)
next
  case (PostSpikes fm tm)
  with assms show ?thesis by (simp add: update_on_post_spikes_def state_after_def)
next
  case (Forward out)
  show ?thesis
    using forward_frame [of "s\<lparr>pre_layer := (pre_layer s)\<lparr>o_l := out\<rparr>\<rparr>"]
    by (simp add: Forward)
qed

lemma run_static:
  "static s \<Longrightarrow> static (run s evs) \<and> weights (run s evs) = weights s"
proof (induction evs arbitrary: s)
  case Nil then show ?case by simp
next
  case (Cons ev evs)
  from Cons.prems call_frame[of s ev] have "static (state_after (call s ev))" by simp
  from Cons.IH[OF this] call_static[OF Cons.prems, of ev] show ?case by simp
qed




section \<open>Well-formed tensors through the update hooks\<close>

lemma length_blocks [simp]: "length (blocks k n xs) = k"
  by (simp add: blocks_def)

lemma block_min:
  assumes "i < k"
  shows "min (k * n - i * n) n = (n::nat)"
proof -
  from assms have "Suc i \<le> k" by simp
  then have "Suc i * n \<le> k * n" by (rule mult_le_mono1)
  then have "n \<le> k * n - i * n" by simp
  then show ?thesis by simp
qed

lemma block_length:
  assumes "length xs = k * n" and "i < k"
  shows "length (take n (drop (i * n) xs)) = n"
  using assms by (simp add: block_min)

lemma map_length_blocks:
  "length xs = k * n \<Longrightarrow> map length (blocks k n xs) = replicate k n"
  by (auto simp: blocks_def block_min intro!: nth_equalityI)

lemma length_concat_replicate [simp]: "length (concat (replicate k xs)) = k * length xs"
  by (induction k) simp_all

lemma sum_list_replicate_nat [simp]: "sum_list (replicate k (n::nat)) = k * n"
  by (induction k) simp_all

lemma broadcast_rev_compat:
  "broadcast_rev xs ys = Some rs \<Longrightarrow>
     list_all2 (\<lambda>d r. d = r \<or> d = 1) (xs @ replicate (length rs - length xs) 1) rs \<and>
     list_all2 (\<lambda>d r. d = r \<or> d = 1) (ys @ replicate (length rs - length ys) 1) rs"
proof (induction xs ys arbitrary: rs rule: broadcast_rev.induct)
  case (1 ys)
  then show ?case by (simp add: list_all2_conv_all_nth)
next
  case (2 x xs)
  then show ?case by (simp add: list_all2_conv_all_nth)
next
  case (3 x xs y ys)
  then show ?case by (auto split: if_splits)
qed

lemma infer_size_compat:
  assumes "infer_size a b = Some r"
  shows "list_all2 (\<lambda>d r. d = r \<or> d = 1) (pad_shape (length r) a) r"
    and "list_all2 (\<lambda>d r. d = r \<or> d = 1) (pad_shape (length r) b) r"
proof -
  from assms obtain rs where rs: "broadcast_rev (rev a) (rev b) = Some rs" and r: "r = rev rs"
    by (auto simp: infer_size_def)
  from broadcast_rev_compat[OF rs]
  have "list_all2 (\<lambda>d r. d = r \<or> d = 1) (rev (rev a @ replicate (length rs - length a) 1)) (rev rs)"
   and "list_all2 (\<lambda>d r. d = r \<or> d = 1) (rev (rev b @ replicate (length rs - length b) 1)) (rev rs)"
    by (simp_all only: list_all2_rev length_rev)
  then show "list_all2 (\<lambda>d r. d = r \<or> d = 1) (pad_shape (length r) a) r"
    and "list_all2 (\<lambda>d r. d = r \<or> d = 1) (pad_shape (length r) b) r"
    by (simp_all add: pad_shape_def r)
qed

lemma expand_elems_length:
  "list_all2 (\<lambda>d r. d = r \<or> d = 1) ds rs \<Longrightarrow> length xs = prod_list ds \<Longrightarrow>
     length (expand_elems ds rs xs) = prod_list rs"
proof (induction ds rs xs rule: expand_elems.induct)
  case (1 d ds r rs xs)
  from "1.prems" have c: "d = r \<or> d = 1" and cs: "list_all2 (\<lambda>d r. d = r \<or> d = 1) ds rs"
    and len: "length xs = d * prod_list ds" by simp_all
  have each: "\<And>b. b \<in> set (blocks d (prod_list ds) xs) \<Longrightarrow>
      length (expand_elems ds rs b) = prod_list rs"
  proof -
    fix b assume b: "b \<in> set (blocks d (prod_list ds) xs)"
    then have "length b = prod_list ds"
      using len by (auto simp: blocks_def block_min)
    with "1.IH"[OF b cs] show "length (expand_elems ds rs b) = prod_list rs" .
  qed
  have "map (\<lambda>b. length (expand_elems ds rs b)) (blocks d (prod_list ds) xs)
        = replicate d (prod_list rs)"
    by (rule nth_equalityI) (auto simp: each)
  then have tot: "length (concat (map (\<lambda>b. expand_elems ds rs b) (blocks d (prod_list ds) xs)))
        = d * prod_list rs"
    by (simp add: length_concat comp_def)
  show ?case
  proof (cases "d = r")
    case True
    with tot show ?thesis by simp
  next
    case False
    with c have "d = 1" by simp
    with False tot show ?thesis by (simp add: Let_def)
  qed
qed simp_all

lemma prod_list_pad_shape [simp]: "prod_list (pad_shape n sh) = prod_list sh"
  by (simp add: pad_shape_def)

lemma expand_length:
  assumes "infer_size a (shape x) = Some r" and "wf_tensor x"
  shows "length (expand r x) = prod_list r"
  using infer_size_compat(2)[OF assms(1)] assms(2)
  by (simp add: expand_def expand_elems_length wf_tensor_def)

lemma expand_length_left:
  assumes "infer_size (shape x) b = Some r" and "wf_tensor x"
  shows "length (expand r x) = prod_list r"
  using infer_size_compat(1)[OF assms(1)] assms(2)
  by (simp add: expand_def expand_elems_length wf_tensor_def)

lemma wf_binop:
  assumes "binop f a b = Inr c" and "wf_tensor a" and "wf_tensor b"
  shows "wf_tensor c"
proof -
  from assms(1) obtain r where r: "infer_size (shape a) (shape b) = Some r"
    and c: "c = Tensor r (map2 f (expand r a) (expand r b))"
    by (auto simp: binop_def split: option.splits)
  from expand_length_left[OF r assms(2)] expand_length[OF r assms(3)] c
  show ?thesis by (simp add: wf_tensor_def)
qed

lemma rank_le_2_cases:
  assumes "length sh \<le> 2"
  shows "sh = [] \<or> (\<exists>a. sh = [a]) \<or> (\<exists>a b. sh = [a, b])"
proof (cases sh)
  case Nil then show ?thesis by simp
next
  case (Cons a sh')
  note outer = Cons
  show ?thesis
  proof (cases sh')
    case Nil with outer show ?thesis by simp
  next
    case (Cons b sh'')
    with outer assms have "sh'' = []" by simp
    with outer Cons show ?thesis by simp
  qed
qed

lemma wf_repeat:
  assumes "repeat k x = Inr y" and "wf_tensor x"
  shows "wf_tensor y"
proof -
  from assms(1) have le: "length (shape x) \<le> 2"
    and y: "y = Tensor [k * pad_shape 2 (shape x) ! 0, pad_shape 2 (shape x) ! 1]
                  (concat (replicate k (elems x)))"
    by (auto simp: repeat_def Let_def split: if_splits)
  from rank_le_2_cases[OF le] show ?thesis
    using assms(2) by (auto simp: y wf_tensor_def pad_shape_def)
qed

lemma wf_t:
  assumes "t x = Inr y" and "wf_tensor x"
  shows "wf_tensor y"
  using assms
  by (auto simp: t_def wf_tensor_def length_concat comp_def sum_list_triv
           split: list.splits)


lemma wf_map_tensor [simp]: "wf_tensor (map_tensor f x) = wf_tensor x"
  by (simp add: wf_tensor_def)

lemma mask_fits_shape:
  "mask_fits m x \<Longrightarrow> shape x = shape m @ drop (length (shape m)) (shape x)"
  by (metis append_take_drop_id mask_fits_def)

lemma length_concat_map2_blocks:
  assumes "length ms = k" and "length xs = k * n"
    and "\<And>b blk. length (g b blk) = length blk"
  shows "length (concat (map2 g ms (blocks k n xs))) = k * n"
proof -
  have "map length (map2 g ms (blocks k n xs)) = map length (blocks k n xs)"
    using assms(1) by (intro nth_equalityI) (simp_all add: assms(3))
  then show ?thesis
    using assms(2) by (simp add: length_concat map_length_blocks)
qed

lemma setitem_mask_scalar_shape:
  "setitem_mask_scalar x m c = Inr y \<Longrightarrow> shape y = shape x"
  by (auto simp: setitem_mask_scalar_def Let_def split: if_splits)

lemma wf_setitem_mask_scalar:
  assumes "setitem_mask_scalar x m c = Inr y" and "wf_tensor x" and "wf_tensor m"
  shows "wf_tensor y"
proof -
  let ?rest = "drop (length (shape m)) (shape x)"
  from assms(1) have fits: "mask_fits m x"
    and y: "y = Tensor (shape x)
             (concat (map2 (\<lambda>b blk. if b then map (\<lambda>_. c) blk else blk) (elems m)
                (blocks (prod_list (shape m)) (prod_list ?rest) (elems x))))"
    by (auto simp: setitem_mask_scalar_def Let_def split: if_splits)
  from mask_fits_shape[OF fits] have "prod_list (shape x) = prod_list (shape m) * prod_list ?rest"
    by (metis prod_list.append)
  with assms(2) have len: "length (elems x) = prod_list (shape m) * prod_list ?rest"
    by (simp add: wf_tensor_def)
  from assms(3) have lm: "length (elems m) = prod_list (shape m)" by (simp add: wf_tensor_def)
  have "length (elems y) = prod_list (shape m) * prod_list ?rest"
    unfolding y tensor.sel by (rule length_concat_map2_blocks[OF lm len]) simp
  with len assms(2) y show ?thesis by (simp add: wf_tensor_def)
qed

lemma nth_concat_map:
  assumes "\<And>x. length (f x) = m" and "p < length xs" and "q < m"
  shows "concat (map f xs) ! (p * m + q) = f (xs ! p) ! q"
  using assms(2)
proof (induction xs arbitrary: p)
  case Nil then show ?case by simp
next
  case (Cons x xs)
  show ?case
  proof (cases p)
    case 0
    with assms(1,3) show ?thesis by (simp add: nth_append)
  next
    case (Suc p')
    with Cons.prems have "p' < length xs" by simp
    from Cons.IH[OF this] Suc assms(1) show ?thesis by (simp add: nth_append)
  qed
qed

lemma length_concat_map_const:
  assumes "\<And>x. length (f x) = m"
  shows "length (concat (map f xs)) = length xs * m"
  by (induction xs) (simp_all add: assms)

lemma ger_entry:
  assumes "ger a b = Inr c" and "wf_tensor a" and "wf_tensor b"
  obtains P Q where "shape a = [P]" "shape b = [Q]" "shape c = [P, Q]"
    "length (elems c) = P * Q"
    "\<And>p q. p < P \<Longrightarrow> q < Q \<Longrightarrow> elems c ! (p * Q + q) = (elems a ! p \<and> elems b ! q)"
proof -
  from assms(1) have ra: "length (shape a) = 1" and rb: "length (shape b) = 1"
    and c: "c = Tensor (shape a @ shape b)
                  (concat (map (\<lambda>x. map (\<lambda>y. x \<and> y) (elems b)) (elems a)))"
    by (auto simp: ger_def split: if_splits)
  from ra obtain P where P: "shape a = [P]" by (cases "shape a") simp_all
  from rb obtain Q where Q: "shape b = [Q]" by (cases "shape b") simp_all
  from assms(2,3) P Q have la: "length (elems a) = P" and lb: "length (elems b) = Q"
    by (simp_all add: wf_tensor_def)
  have len: "length (elems c) = P * Q"
    unfolding c tensor.sel using la lb
    by (simp add: length_concat_map_const[where m=Q])
  have ent: "\<And>p q. p < P \<Longrightarrow> q < Q \<Longrightarrow> elems c ! (p * Q + q) = (elems a ! p \<and> elems b ! q)"
  proof -
    fix p q assume p: "p < P" and q: "q < Q"
    have "concat (map (\<lambda>x. map (\<lambda>y. x \<and> y) (elems b)) (elems a)) ! (p * Q + q)
          = map (\<lambda>y. elems a ! p \<and> y) (elems b) ! q"
      using p q la lb by (intro nth_concat_map) simp_all
    with q lb show "elems c ! (p * Q + q) = (elems a ! p \<and> elems b ! q)"
      by (simp add: c)
  qed
  from that[OF P Q _ len ent] P Q c show ?thesis by simp
qed


lemma binop_inplace_Inr:
  assumes "binop_inplace f a b = Inr c"
  shows "infer_size (shape a) (shape b) = Some (shape a)"
    and "c = Tensor (shape a) (map2 f (elems a) (expand (shape a) b))"
  using assms by (auto simp: binop_inplace_def split: option.splits if_splits)

lemma matrix_index:
  assumes "p < P" and "q < Q"
  shows "p * Q + q < P * (Q::nat)"
proof -
  from assms(1) have "Suc p \<le> P" by simp
  then have "Suc p * Q \<le> P * Q" by (rule mult_le_mono1)
  with assms(2) show ?thesis by simp
qed

lemma pre_dt_wf:
  assumes "pre_dt s = Inr dt"
    and "wf_tensor (last_pre_spike_time s)" and "wf_tensor (last_post_spike_time s)"
  shows "wf_tensor dt"
proof -
  from assms(1) obtain a a' b where
    a: "repeat (size_l (post_layer s)) (last_pre_spike_time s) = Inr a" and a': "t a = Inr a'"
    and b: "repeat (size_l (pre_layer s)) (last_post_spike_time s) = Inr b"
    and d: "binop (-) a' b = Inr dt"
    unfolding pre_dt_def bind_Inr_iff by blast
  from wf_binop[OF d wf_t[OF a' wf_repeat[OF a assms(2)]] wf_repeat[OF b assms(3)]]
  show ?thesis .
qed

lemma post_dt_wf:
  assumes "post_dt s = Inr dt"
    and "wf_tensor (last_pre_spike_time s)" and "wf_tensor (last_post_spike_time s)"
  shows "wf_tensor dt"
proof -
  from assms(1) obtain a b b' where
    a: "repeat (size_l (pre_layer s)) (last_post_spike_time s) = Inr a"
    and b: "repeat (size_l (post_layer s)) (last_pre_spike_time s) = Inr b" and b': "t b = Inr b'"
    and d: "binop (-) a b' = Inr dt"
    unfolding post_dt_def bind_Inr_iff by blast
  from wf_binop[OF d wf_repeat[OF a assms(3)] wf_t[OF b' wf_repeat[OF b assms(2)]]]
  show ?thesis .
qed

section \<open>The eligibility masks\<close>

text \<open>
  The mask \<^verbatim>\<open>active\<close> of either hook is false wherever the partner neuron is at the
  sentinel.
\<close>

lemma ger_Inr:
  assumes "ger a b = Inr c" and "wf_tensor a" and "wf_tensor b"
  shows "\<exists>P Q. shape a = [P] \<and> shape b = [Q] \<and> shape c = [P, Q] \<and>
     length (elems c) = P * Q \<and>
     (\<forall>p q. p < P \<longrightarrow> q < Q \<longrightarrow> elems c ! (p * Q + q) = (elems a ! p \<and> elems b ! q))"
  by (rule ger_entry[OF assms]) simp

lemma masked_and_entry:
  assumes g: "ger a b = Inr a0" and wa: "wf_tensor a" and wb: "wf_tensor b"
    and i: "binop_inplace (\<and>) a0 win = Inr active" and ww: "wf_tensor win"
    and sh: "shape active = [P, Q]" and p: "p < P" and q: "q < Q"
  shows "entry active p q \<longrightarrow> elems a ! p \<and> elems b ! q"
proof -
  from ger_Inr[OF g wa wb] obtain P0 Q0 where
    s0: "shape a0 = [P0, Q0]" and l0: "length (elems a0) = P0 * Q0"
    and e0: "\<forall>p q. p < P0 \<longrightarrow> q < Q0 \<longrightarrow> elems a0 ! (p * Q0 + q) = (elems a ! p \<and> elems b ! q)"
    by (elim exE conjE)
  note r = binop_inplace_Inr[OF i]
  from r(2) have sa: "shape active = shape a0" by simp
  with sh s0 have PQ: "P0 = P" "Q0 = Q" by simp_all
  from expand_length[OF r(1) ww] have "length (expand (shape a0) win) = prod_list (shape a0)" .
  with s0 PQ have le: "length (expand (shape a0) win) = P * Q" by simp
  from l0 PQ have l0': "length (elems a0) = P * Q" by simp
  from matrix_index[OF p q] have idx: "p * Q + q < P * Q" .
  from r(2) have ea: "elems active = map2 (\<and>) (elems a0) (expand (shape a0) win)" by simp
  have "entry active p q = elems active ! (p * Q + q)"
    by (simp add: entry_def sh)
  also have "\<dots> = (elems a0 ! (p * Q + q) \<and> expand (shape a0) win ! (p * Q + q))"
    unfolding ea using idx l0' le by simp
  finally have "entry active p q \<longrightarrow> elems a0 ! (p * Q + q)" by simp
  moreover from e0 p q PQ have "elems a0 ! (p * Q + q) = (elems a ! p \<and> elems b ! q)" by blast
  ultimately show ?thesis by simp
qed

lemma pre_active_sentinel:
  assumes act: "pre_active s = Inr (active, dt)"
    and wf: "wf_tensor (last_pre_spike_time s)" "wf_tensor (last_post_spike_time s)"
            "wf_tensor (firing_mask (pre_layer s))"
    and sh: "shape active = [P, Q]" and p: "p < P" and q: "q < Q"
    and sentinel: "elems (last_post_spike_time s) ! q < 0"
  shows "\<not> entry active p q"
proof -
  from act obtain a0 tau where
    g: "ger (firing_mask (pre_layer s)) (map_tensor (\<lambda>x. x \<ge> 0) (last_post_spike_time s)) = Inr a0"
    and d: "pre_dt s = Inr dt"
    and i: "binop_inplace (\<and>) a0 (map_tensor (\<lambda>x. x \<le> 2 * tau) dt) = Inr active"
    unfolding pre_active_def Let_def bind_Inr_iff by auto
  have wpa: "wf_tensor (map_tensor (\<lambda>x. x \<ge> 0) (last_post_spike_time s))"
    using wf(2) by simp
  have wwin: "wf_tensor (map_tensor (\<lambda>x. x \<le> 2 * tau) dt)"
    using pre_dt_wf[OF d wf(1,2)] by simp
  from ger_Inr[OF g wf(3) wpa] obtain P0 Q0 where
    sq: "shape (map_tensor (\<lambda>x. x \<ge> 0) (last_post_spike_time s)) = [Q0]"
    and s0: "shape a0 = [P0, Q0]"
    by (elim exE conjE)
  from binop_inplace_shape[OF i] sh s0 have "Q0 = Q" by simp
  with sq wf(2) have lq: "length (elems (last_post_spike_time s)) = Q"
    by (simp add: wf_tensor_def)
  from masked_and_entry[OF g wf(3) wpa i wwin sh p q]
  have "entry active p q \<longrightarrow> elems (map_tensor (\<lambda>x. x \<ge> 0) (last_post_spike_time s)) ! q"
    by simp
  with q lq sentinel show ?thesis by simp
qed

lemma post_active_sentinel:
  assumes act: "post_active s = Inr (active, dt)"
    and wf: "wf_tensor (last_pre_spike_time s)" "wf_tensor (last_post_spike_time s)"
            "wf_tensor (firing_mask (post_layer s))"
    and sh: "shape active = [P, Q]" and p: "p < P" and q: "q < Q"
    and sentinel: "elems (last_pre_spike_time s) ! p < 0"
  shows "\<not> entry active p q"
proof -
  from act obtain a0 tau where
    g: "ger (map_tensor (\<lambda>x. x \<ge> 0) (last_pre_spike_time s)) (firing_mask (post_layer s)) = Inr a0"
    and d: "post_dt s = Inr dt"
    and i: "binop_inplace (\<and>) a0 (map_tensor (\<lambda>x. x \<le> 2 * tau) dt) = Inr active"
    unfolding post_active_def Let_def bind_Inr_iff by auto
  have wpa: "wf_tensor (map_tensor (\<lambda>x. x \<ge> 0) (last_pre_spike_time s))"
    using wf(1) by simp
  have wwin: "wf_tensor (map_tensor (\<lambda>x. x \<le> 2 * tau) dt)"
    using post_dt_wf[OF d wf(1,2)] by simp
  from ger_Inr[OF g wpa wf(3)] obtain P0 Q0 where
    sp: "shape (map_tensor (\<lambda>x. x \<ge> 0) (last_pre_spike_time s)) = [P0]"
    and s0: "shape a0 = [P0, Q0]"
    by (elim exE conjE)
  from binop_inplace_shape[OF i] sh s0 have "P0 = P" by simp
  with sp wf(1) have lp: "length (elems (last_pre_spike_time s)) = P"
    by (simp add: wf_tensor_def)
  from masked_and_entry[OF g wpa wf(3) i wwin sh p q]
  have "entry active p q \<longrightarrow> elems (map_tensor (\<lambda>x. x \<ge> 0) (last_pre_spike_time s)) ! p"
    by simp
  with p lp sentinel show ?thesis by simp
qed

section \<open>The forward product\<close>

lemma matmul_vector_matrix:
  assumes "shape a = [P]" and "shape b = [P, Q]"
  shows "matmul a b =
    Inr (Tensor [Q] (map (\<lambda>q. \<Sum>p<P. elems a ! p * entry b p q) [0..<Q]))"
proof -
  have sum: "\<And>j. j < Q \<Longrightarrow>
      (\<Sum>l\<leftarrow>[0..<P]. take P (elems a) ! l * take (P * Q) (elems b) ! (l * Q + j))
      = (\<Sum>p<P. elems a ! p * elems b ! (p * Q + j))"
  proof -
    fix j assume j: "j < Q"
    have idx: "\<And>l. l < P \<Longrightarrow> l * Q + j < P * Q"
    proof -
      fix l assume "l < P"
      then have "Suc l \<le> P" by simp
      then have "Suc l * Q \<le> P * Q" by (rule mult_le_mono1)
      with j show "l * Q + j < P * Q" by simp
    qed
    have "(\<Sum>l\<leftarrow>[0..<P]. take P (elems a) ! l * take (P * Q) (elems b) ! (l * Q + j))
        = (\<Sum>l\<leftarrow>[0..<P]. elems a ! l * elems b ! (l * Q + j))"
      by (rule arg_cong[where f=sum_list], rule map_cong) (auto simp: idx)
    also have "\<dots> = (\<Sum>p<P. elems a ! p * elems b ! (p * Q + j))"
      by (simp add: interv_sum_list_conv_sum_set_nat atLeast0LessThan)
    finally show "(\<Sum>l\<leftarrow>[0..<P]. take P (elems a) ! l * take (P * Q) (elems b) ! (l * Q + j))
      = (\<Sum>p<P. elems a ! p * elems b ! (p * Q + j))" .
  qed
  have "matmul a b = Inr (Tensor [Q] (mm 1 P Q (take P (elems a)) (take (P * Q) (elems b))))"
    using assms by (simp add: matmul_def infer_size_def pad_shape_def blocks_def)
  also have "mm 1 P Q (take P (elems a)) (take (P * Q) (elems b))
      = map (\<lambda>q. \<Sum>p<P. elems a ! p * entry b p q) [0..<Q]"
    using assms(2) by (simp add: mm_def entry_def sum cong: map_cong)
  finally show ?thesis .
qed

section \<open>The claims\<close>

lemmas eval_defs =
  update_on_pre_spikes_def update_on_post_spikes_def setitem_mask_scalar_def mask_fits_def
  pre_new_values_def pre_dw_def getitem_mask_def pre_active_def pre_dt_def
  post_new_values_def post_dw_def post_active_def post_dt_def
  bind_def repeat_def t_def binop_def binop_inplace_def
  infer_size_def ger_def getattr_def pad_shape_def expand_def blocks_def
  scenario_def with_parameters_def fresh_1x1_def fresh_1x2_def constructed_def layer_of_def
  post_fired_def pre_fired_def frozen_out_of_bounds_def one_silent_def two_by_two_def
  ExponentialSTDPSynapse_init_def AbstractSynapse_init_def ones_def state_after_def
  within_bounds_def entry_def wf_tensor_def numeral_2_eq_2

text \<open>
  C1, at the input where the claim promises a change of weight: the scenario synapse
  whose post neuron fired at t = 5 receives a pre spike at t = 10. The pair (0, 0) is
  eligible (\<^verbatim>\<open>active\<close> is true there, \<open>dt = 5\<close>) and the new pre spike is recorded,
  but the call raises RuntimeError at line 109 and the weight is still 0.5, where the claim
  has it decreased by \<open>learn_rate_m * (0.5 - w_min) * exp(-5/20)\<close>. Line 108 multiplies the
  one-dimensional list \<^verbatim>\<open>self.weights[active]\<close> by the whole matrix
  \<^verbatim>\<open>torch.exp(-dt / self.tau_m)\<close>, so \<^verbatim>\<open>dw\<close> is a matrix, and the in-place subtraction
  of a matrix from a one-dimensional tensor is refused.
\<close>

theorem pre_spike_update_raises:
  "isl (call post_fired (PreSpikes (Tensor [1] [True]) 10)) \<and>
   fst (projl (call post_fired (PreSpikes (Tensor [1] [True]) 10))) = RuntimeError \<and>
   last_pre_spike_time (state_after (call post_fired (PreSpikes (Tensor [1] [True]) 10)))
     = Tensor [1] [10] \<and>
   pre_active (state_after (call post_fired (PreSpikes (Tensor [1] [True]) 10)))
     = Inr (Tensor [1, 1] [True], Tensor [1, 1] [5]) \<and>
   weights (state_after (call post_fired (PreSpikes (Tensor [1] [True]) 10)))
     = Tensor [1, 1] [1 / 2] \<and>
   1 / 2 - 1 / 10 * (1 / 2 - 0) * exp (- 5 / 20) < (1 / 2 :: real)"
  by (simp add: eval_defs)

text \<open>
  C2, at the input where the claim promises a change of weight: the scenario synapse
  whose pre neuron fired at t = 10 receives a post spike at t = 12. The pair (0, 0) is
  eligible (\<open>dt = 2\<close>) and the new post spike is recorded, but the call raises RuntimeError
  at line 132 and the weight is still 0.5, where the claim has it increased by
  \<open>learn_rate_p * (w_max - 0.5) * exp(-2/20)\<close>.
\<close>

theorem post_spike_update_raises:
  "isl (call pre_fired (PostSpikes (Tensor [1] [True]) 12)) \<and>
   fst (projl (call pre_fired (PostSpikes (Tensor [1] [True]) 12))) = RuntimeError \<and>
   last_post_spike_time (state_after (call pre_fired (PostSpikes (Tensor [1] [True]) 12)))
     = Tensor [1] [12] \<and>
   post_active (state_after (call pre_fired (PostSpikes (Tensor [1] [True]) 12)))
     = Inr (Tensor [1, 1] [True], Tensor [1, 1] [2]) \<and>
   weights (state_after (call pre_fired (PostSpikes (Tensor [1] [True]) 12)))
     = Tensor [1, 1] [1 / 2] \<and>
   (1 / 2 :: real) < 1 / 2 + 1 / 10 * (1 - 1 / 2) * exp (- 2 / 20)"
  by (simp add: eval_defs)




text \<open>
  C4: the numeric scenario on the code. The weight is 0.5 after the post spike at t = 5, as
  the claim says, but it is still 0.5 after the pre spike at t = 10 and after the post
  spike at t = 12, because both calls raise RuntimeError before any weight is stored. The
  value the claim gives after the pre spike, \<open>0.5 - 0.1 * 0.5 * exp(-5/20)\<close>, is further
  than \<open>1e-5\<close> from 0.5.
\<close>

theorem numeric_scenario_diverges:
  "weights (run scenario [PostSpikes (Tensor [1] [True]) 5]) = Tensor [1, 1] [1 / 2] \<and>
   isl (call (run scenario [PostSpikes (Tensor [1] [True]) 5]) (PreSpikes (Tensor [1] [True]) 10)) \<and>
   fst (projl (call (run scenario [PostSpikes (Tensor [1] [True]) 5])
                 (PreSpikes (Tensor [1] [True]) 10))) = RuntimeError \<and>
   weights (run scenario [PostSpikes (Tensor [1] [True]) 5, PreSpikes (Tensor [1] [True]) 10])
     = Tensor [1, 1] [1 / 2] \<and>
   isl (call (run scenario [PostSpikes (Tensor [1] [True]) 5, PreSpikes (Tensor [1] [True]) 10])
          (PostSpikes (Tensor [1] [True]) 12)) \<and>
   weights (run scenario [PostSpikes (Tensor [1] [True]) 5, PreSpikes (Tensor [1] [True]) 10,
                          PostSpikes (Tensor [1] [True]) 12])
     = Tensor [1, 1] [1 / 2] \<and>
   1 / 100000 < \<bar>1 / 2 - (1 / 2 - 1 / 10 * (1 / 2) * exp (- 5 / 20 :: real))\<bar>"
proof -
  have "1 + (- 1 / 4) \<le> exp (- 1 / 4 :: real)" by (rule exp_ge_add_one_self)
  then have e: "3 / 4 \<le> exp (- (1 / 4) :: real)" by simp
  have "1 / 100000 < \<bar>1 / 2 - (1 / 2 - 1 / 10 * (1 / 2) * exp (- 5 / 20 :: real))\<bar>"
    using e by simp
  then show ?thesis by (simp add: eval_defs)
qed

text \<open>
  C5, on constructed synapses. A hook of a freshly constructed synapse raises
  AttributeError: lines 104 and 127 read \<^verbatim>\<open>self.tau_m\<close> and \<^verbatim>\<open>self.tau_p\<close>, which no
  code assigns. With the four parameters assigned on the object, both hooks of a
  \<open>1 \<times> 2\<close> synapse raise RuntimeError on their first call. The claim has every such
  call run to completion, and has no error besides ShapeMismatch and UnimplementedRule.
\<close>

theorem hooks_raise_on_constructed_synapse:
  "isl (call (fresh_1x1 (1 / 2)) (PreSpikes (Tensor [1] [True]) 10)) \<and>
   fst (projl (call (fresh_1x1 (1 / 2)) (PreSpikes (Tensor [1] [True]) 10)))
     = AttributeError ''tau_m'' \<and>
   isl (call (fresh_1x1 (1 / 2)) (PostSpikes (Tensor [1] [True]) 10)) \<and>
   fst (projl (call (fresh_1x1 (1 / 2)) (PostSpikes (Tensor [1] [True]) 10)))
     = AttributeError ''tau_p'' \<and>
   isl (call (with_parameters fresh_1x2) (PreSpikes (Tensor [1] [True]) 10)) \<and>
   fst (projl (call (with_parameters fresh_1x2) (PreSpikes (Tensor [1] [True]) 10)))
     = RuntimeError \<and>
   isl (call (with_parameters fresh_1x2) (PostSpikes (Tensor [2] [True, False]) 10)) \<and>
   fst (projl (call (with_parameters fresh_1x2) (PostSpikes (Tensor [2] [True, False]) 10)))
     = RuntimeError"
  by (simp add: eval_defs)

text \<open>
  C6: on a synapse with a weight matrix and well-formed trackers and firing masks, a call
  of \<^verbatim>\<open>update_on_pre_spikes\<close> leaves every weight as it was, and the mask \<^verbatim>\<open>active\<close>
  that the call computes after recording the new pre spikes is false at every pair
  \<open>(p, q)\<close> whose post neuron \<open>q\<close> is at the sentinel (negative tracker entry): such a
  neuron forms no eligible pair. Symmetrically for \<^verbatim>\<open>update_on_post_spikes\<close> and a pre
  neuron \<open>p\<close> at the sentinel.
\<close>

theorem sentinel_exclusion:
  assumes "length (shape (weights s)) = 2"
    and "wf_tensor (last_pre_spike_time s)" and "wf_tensor (last_post_spike_time s)"
    and "wf_tensor (firing_mask (pre_layer s))" and "wf_tensor (firing_mask (post_layer s))"
  shows "weights (state_after (update_on_pre_spikes s)) = weights s \<and>
     weights (state_after (update_on_post_spikes s)) = weights s \<and>
     (\<forall>lp active dt P Q p q.
        setitem_mask_scalar (last_pre_spike_time s) (firing_mask (pre_layer s))
          (time (network s)) = Inr lp \<and>
        pre_active (s\<lparr>last_pre_spike_time := lp\<rparr>) = Inr (active, dt) \<and>
        shape active = [P, Q] \<and> p < P \<and> q < Q \<and>
        elems (last_post_spike_time s) ! q < 0
        \<longrightarrow> \<not> entry active p q) \<and>
     (\<forall>lp active dt P Q p q.
        setitem_mask_scalar (last_post_spike_time s) (firing_mask (post_layer s))
          (time (network s)) = Inr lp \<and>
        post_active (s\<lparr>last_post_spike_time := lp\<rparr>) = Inr (active, dt) \<and>
        shape active = [P, Q] \<and> p < P \<and> q < Q \<and>
        elems (last_pre_spike_time s) ! p < 0
        \<longrightarrow> \<not> entry active p q)"
proof (intro conjI allI impI)
  from assms(1) show "weights (state_after (update_on_pre_spikes s)) = weights s"
    by (intro update_on_pre_spikes_matrix_weights) simp
  from assms(1) show "weights (state_after (update_on_post_spikes s)) = weights s"
    by (intro update_on_post_spikes_matrix_weights) simp
next
  fix lp active dt P Q p q
  assume h: "setitem_mask_scalar (last_pre_spike_time s) (firing_mask (pre_layer s))
          (time (network s)) = Inr lp \<and>
        pre_active (s\<lparr>last_pre_spike_time := lp\<rparr>) = Inr (active, dt) \<and>
        shape active = [P, Q] \<and> p < P \<and> q < Q \<and>
        elems (last_post_spike_time s) ! q < 0"
  from h have set: "setitem_mask_scalar (last_pre_spike_time s) (firing_mask (pre_layer s))
          (time (network s)) = Inr lp" by simp
  have "wf_tensor lp" by (rule wf_setitem_mask_scalar[OF set assms(2) assms(4)])
  then show "\<not> entry active p q"
    using h assms(3,4)
    by (intro pre_active_sentinel[of "s\<lparr>last_pre_spike_time := lp\<rparr>" active dt P Q p q]) simp_all
next
  fix lp active dt P Q p q
  assume h: "setitem_mask_scalar (last_post_spike_time s) (firing_mask (post_layer s))
          (time (network s)) = Inr lp \<and>
        post_active (s\<lparr>last_post_spike_time := lp\<rparr>) = Inr (active, dt) \<and>
        shape active = [P, Q] \<and> p < P \<and> q < Q \<and>
        elems (last_pre_spike_time s) ! p < 0"
  from h have set: "setitem_mask_scalar (last_post_spike_time s) (firing_mask (post_layer s))
          (time (network s)) = Inr lp" by simp
  have "wf_tensor lp" by (rule wf_setitem_mask_scalar[OF set assms(3) assms(5)])
  then show "\<not> entry active p q"
    using h assms(2,5)
    by (intro post_active_sentinel[of "s\<lparr>last_post_spike_time := lp\<rparr>" active dt P Q p q]) simp_all
qed

theorem sentinel_exclusion_witness:
  "length (shape (weights one_silent)) = 2 \<and>
   wf_tensor (last_pre_spike_time one_silent) \<and> wf_tensor (last_post_spike_time one_silent) \<and>
   wf_tensor (firing_mask (pre_layer one_silent)) \<and>
   wf_tensor (firing_mask (post_layer one_silent)) \<and>
   setitem_mask_scalar (last_pre_spike_time one_silent) (firing_mask (pre_layer one_silent))
     (time (network one_silent)) = Inr (Tensor [1] [10]) \<and>
   pre_active (one_silent\<lparr>last_pre_spike_time := Tensor [1] [10]\<rparr>)
     = Inr (Tensor [1, 2] [True, False], Tensor [1, 2] [5, 11]) \<and>
   elems (last_post_spike_time one_silent) ! 1 < 0 \<and>
   \<not> entry (Tensor [1, 2] [True, False]) 0 1 \<and>
   setitem_mask_scalar (last_post_spike_time one_silent) (firing_mask (post_layer one_silent))
     (time (network one_silent)) = Inr (Tensor [2] [10, - 1]) \<and>
   post_active (one_silent\<lparr>last_post_spike_time := Tensor [2] [10, - 1]\<rparr>)
     = Inr (Tensor [1, 2] [False, False], Tensor [1, 2] [11, 0]) \<and>
   elems (last_pre_spike_time one_silent) ! 0 < 0 \<and>
   \<not> entry (Tensor [1, 2] [False, False]) 0 0 \<and>
   weights (state_after (update_on_pre_spikes one_silent)) = Tensor [1, 2] [1 / 2, 1 / 2] \<and>
   weights (state_after (update_on_post_spikes one_silent)) = Tensor [1, 2] [1 / 2, 1 / 2]"
proof -
  have h1: "length (shape (weights one_silent)) = 2" by (simp add: eval_defs)
  have h2: "wf_tensor (last_pre_spike_time one_silent)" by (simp add: eval_defs)
  have h3: "wf_tensor (last_post_spike_time one_silent)" by (simp add: eval_defs)
  have h4: "wf_tensor (firing_mask (pre_layer one_silent))" by (simp add: eval_defs)
  have h5: "wf_tensor (firing_mask (post_layer one_silent))" by (simp add: eval_defs)
  note main = sentinel_exclusion [OF h1 h2 h3 h4 h5]
  have e1: "setitem_mask_scalar (last_pre_spike_time one_silent) (firing_mask (pre_layer one_silent))
     (time (network one_silent)) = Inr (Tensor [1] [10])"
    by (simp add: eval_defs)
  have e2: "pre_active (one_silent\<lparr>last_pre_spike_time := Tensor [1] [10]\<rparr>)
     = Inr (Tensor [1, 2] [True, False], Tensor [1, 2] [5, 11])"
    by (simp add: eval_defs)
  have e3: "elems (last_post_spike_time one_silent) ! 1 < 0" by (simp add: eval_defs)
  have e4: "setitem_mask_scalar (last_post_spike_time one_silent) (firing_mask (post_layer one_silent))
     (time (network one_silent)) = Inr (Tensor [2] [10, - 1])"
    by (simp add: eval_defs)
  have e5: "post_active (one_silent\<lparr>last_post_spike_time := Tensor [2] [10, - 1]\<rparr>)
     = Inr (Tensor [1, 2] [False, False], Tensor [1, 2] [11, 0])"
    by (simp add: eval_defs)
  have e6: "elems (last_pre_spike_time one_silent) ! 0 < 0" by (simp add: eval_defs)
  have w: "weights one_silent = Tensor [1, 2] [1 / 2, 1 / 2]" by (simp add: eval_defs)
  from main e1 e2 e3 have n1: "\<not> entry (Tensor [1, 2] [True, False]) 0 1"
    by (elim conjE allE [of _ "Tensor [1] [10]"] allE [of _ "Tensor [1, 2] [True, False]"]
          allE [of _ "Tensor [1, 2] [5, 11]"]) (simp add: entry_def)
  from main e4 e5 e6 have n2: "\<not> entry (Tensor [1, 2] [False, False]) 0 0"
    by (simp add: entry_def)
  from main w have w1: "weights (state_after (update_on_pre_spikes one_silent)) = Tensor [1, 2] [1 / 2, 1 / 2]"
    and w2: "weights (state_after (update_on_post_spikes one_silent)) = Tensor [1, 2] [1 / 2, 1 / 2]"
    by simp_all
  from h1 h2 h3 h4 h5 e1 e2 e3 e4 e5 e6 n1 n2 w1 w2 show ?thesis by blast
qed

text \<open>
  C7: with \<^verbatim>\<open>static\<close> true, any sequence of calls of the two update hooks (and of
  \<^verbatim>\<open>forward\<close>), with any firing masks and any times, leaves the weights exactly as
  they were.
\<close>

theorem static_freeze:
  "static s \<Longrightarrow> weights (run s evs) = weights s"
  using run_static by blast

theorem static_freeze_witness:
  "static frozen_out_of_bounds \<and>
   weights (run frozen_out_of_bounds
      [PostSpikes (Tensor [1] [True]) 5, PreSpikes (Tensor [1] [True]) 10]) =
   Tensor [1, 1] [3 / 2]"
proof -
  have h: "static frozen_out_of_bounds" by (simp add: eval_defs)
  have w: "weights frozen_out_of_bounds = Tensor [1, 1] [3 / 2]" by (simp add: eval_defs)
  have r: "weights (run frozen_out_of_bounds
      [PostSpikes (Tensor [1] [True]) 5, PreSpikes (Tensor [1] [True]) 10]) =
      weights frozen_out_of_bounds"
    by (rule static_freeze [OF h])
  show ?thesis
  proof (intro conjI)
    show "static frozen_out_of_bounds" by (rule h)
    show "weights (run frozen_out_of_bounds
      [PostSpikes (Tensor [1] [True]) 5, PreSpikes (Tensor [1] [True]) 10]) =
      Tensor [1, 1] [3 / 2]"
      by (simp only: r w)
  qed
qed

text \<open>
  C8: \<^verbatim>\<open>forward\<close> changes none of \<^verbatim>\<open>weights\<close>, \<^verbatim>\<open>last_pre_spike_time\<close> and
  \<^verbatim>\<open>last_post_spike_time\<close>, in any state; and when \<^verbatim>\<open>pre_layer.o\<close> is a vector of
  length \<open>P\<close> and the weights are a \<open>P \<times> Q\<close> matrix, it returns with \<^verbatim>\<open>post_layer.i\<close>
  set to the vector of length \<open>Q\<close> whose entry \<open>q\<close> is the sum over \<open>p\<close> of
  \<open>o[p] * weights[p][q]\<close>.
\<close>

theorem forward_product:
  "weights (state_after (forward s)) = weights s \<and>
   last_pre_spike_time (state_after (forward s)) = last_pre_spike_time s \<and>
   last_post_spike_time (state_after (forward s)) = last_post_spike_time s \<and>
   (shape (o_l (pre_layer s)) = [P] \<and> shape (weights s) = [P, Q] \<longrightarrow>
      forward s = Inr (state_after (forward s)) \<and>
      i_l (post_layer (state_after (forward s)))
        = Tensor [Q] (map (\<lambda>q. \<Sum>p<P. elems (o_l (pre_layer s)) ! p * entry (weights s) p q) [0..<Q]))"
proof -
  have "shape (o_l (pre_layer s)) = [P] \<and> shape (weights s) = [P, Q] \<longrightarrow>
      forward s = Inr (state_after (forward s)) \<and>
      i_l (post_layer (state_after (forward s)))
        = Tensor [Q] (map (\<lambda>q. \<Sum>p<P. elems (o_l (pre_layer s)) ! p * entry (weights s) p q) [0..<Q])"
  proof
    assume a: "shape (o_l (pre_layer s)) = [P] \<and> shape (weights s) = [P, Q]"
    then have "matmul (o_l (pre_layer s)) (weights s) =
      Inr (Tensor [Q] (map (\<lambda>q. \<Sum>p<P. elems (o_l (pre_layer s)) ! p * entry (weights s) p q) [0..<Q]))"
      by (intro matmul_vector_matrix) simp_all
    then show "forward s = Inr (state_after (forward s)) \<and>
      i_l (post_layer (state_after (forward s)))
        = Tensor [Q] (map (\<lambda>q. \<Sum>p<P. elems (o_l (pre_layer s)) ! p * entry (weights s) p q) [0..<Q])"
      by (simp add: forward_def state_after_def)
  qed
  with forward_frame [of s] show ?thesis by simp
qed

theorem forward_product_witness:
  "shape (o_l (pre_layer two_by_two)) = [2] \<and> shape (weights two_by_two) = [2, 2] \<and>
   forward two_by_two = Inr (state_after (forward two_by_two)) \<and>
   i_l (post_layer (state_after (forward two_by_two))) = Tensor [2] [7, 10] \<and>
   weights (state_after (forward two_by_two)) = Tensor [2, 2] [1, 2, 3, 4]"
proof -
  have h: "shape (o_l (pre_layer two_by_two)) = [2] \<and> shape (weights two_by_two) = [2, 2]"
    by (simp add: two_by_two_def constructed_def layer_of_def ExponentialSTDPSynapse_init_def
          AbstractSynapse_init_def)
  have o: "elems (o_l (pre_layer two_by_two)) = [1, 2]"
    and w: "weights two_by_two = Tensor [2, 2] [1, 2, 3, 4]"
    by (simp_all add: two_by_two_def constructed_def layer_of_def ExponentialSTDPSynapse_init_def
          AbstractSynapse_init_def)
  have v: "map (\<lambda>q. \<Sum>p<2. [1, 2 :: real] ! p * entry (Tensor [2, 2] [1, 2, 3, 4]) p q) [0..<2]
           = [7, 10]"
    by (simp add: entry_def numeral_2_eq_2)
  from forward_product [of two_by_two 2 2] h have
    "forward two_by_two = Inr (state_after (forward two_by_two))"
    "i_l (post_layer (state_after (forward two_by_two)))
        = Tensor [2] (map (\<lambda>q. \<Sum>p<2. elems (o_l (pre_layer two_by_two)) ! p
             * entry (weights two_by_two) p q) [0..<2])"
    "weights (state_after (forward two_by_two)) = weights two_by_two"
    by simp_all
  with h show ?thesis by (simp only: o w v simp_thms)
qed

text \<open>
  C9 as stated fails: \<^verbatim>\<open>__init__\<close> compares no shapes. Layers of sizes 2 and 3 with a
  \<open>1 \<times> 1\<close> weights tensor construct a synapse.
\<close>

theorem construction_unchecked_counterexample:
  "\<not> isl (ExponentialSTDPSynapse_init (layer_of [False, False]) (layer_of [False, False, False])
            (Tensor [1, 1] [1 / 2]) \<lparr>time = 0\<rparr>) \<and>
   shape (Tensor [1, 1] [1 / 2 :: real])
     \<noteq> [size_l (layer_of [False, False]), size_l (layer_of [False, False, False])]"
  by (simp add: eval_defs)

text \<open>
  C9, amended: constructing a synapse succeeds for every initial weights tensor, whether or
  not its shape is \<open>pre_layer.size \<times> post_layer.size\<close>, and stores the tensor and the
  two layers as given.
\<close>

theorem construction_unchecked:
  "\<exists>s. ExponentialSTDPSynapse_init pre post w net = Inr s \<and> weights s = w \<and>
       pre_layer s = pre \<and> post_layer s = post"
  by (simp add: ExponentialSTDPSynapse_init_def AbstractSynapse_init_def)

text \<open>
  The constructor sets \<open>w_min = 0\<close> and \<open>w_max = 1\<close> whatever the caller passes and
  stores the supplied weights without clamping or validation; the stored weights are
  still there after any sequence of \<^verbatim>\<open>forward\<close> calls and of hook calls made while
  \<^verbatim>\<open>static\<close> is true.
\<close>

lemma constructor_stores_weights:
  "ExponentialSTDPSynapse_init pre post w net = Inr (constructed pre post w net) \<and>
   w_min (constructed pre post w net) = 0 \<and>
   w_max (constructed pre post w net) = 1 \<and>
   weights (constructed pre post w net) = w \<and>
   weights (run ((constructed pre post w net)\<lparr>static := True\<rparr>) evs) = w"
  using run_static [of "(constructed pre post w net)\<lparr>static := True\<rparr>" evs]
  by (simp add: constructed_def ExponentialSTDPSynapse_init_def AbstractSynapse_init_def)

text \<open>
  C10, at a \<open>1 \<times> 2\<close> synapse built with weights \<open>(1.5, 0.5)\<close>. The constructor part of
  the claim holds: \<open>w_min = 0\<close>, \<open>w_max = 1\<close>, and the weights are stored as supplied, with
  1.5 out of bounds. The last clause does not: with the four parameters assigned, the
  first call of \<^verbatim>\<open>update_on_pre_spikes\<close> on the non-static synapse raises RuntimeError at
  line 108, before the \<^verbatim>\<open>self._clamp()\<close> of line 110, and 1.5 is still in \<^verbatim>\<open>weights\<close>,
  where the claim has that call clamp it.
\<close>

theorem first_hook_call_does_not_clamp:
  "w_min fresh_1x2 = 0 \<and> w_max fresh_1x2 = 1 \<and>
   weights fresh_1x2 = Tensor [1, 2] [3 / 2, 1 / 2] \<and>
   \<not> within_bounds fresh_1x2 \<and>
   \<not> static (with_parameters fresh_1x2) \<and>
   isl (call (with_parameters fresh_1x2) (PreSpikes (Tensor [1] [True]) 10)) \<and>
   fst (projl (call (with_parameters fresh_1x2) (PreSpikes (Tensor [1] [True]) 10)))
     = RuntimeError \<and>
   weights (state_after (call (with_parameters fresh_1x2) (PreSpikes (Tensor [1] [True]) 10)))
     = Tensor [1, 2] [3 / 2, 1 / 2] \<and>
   \<not> within_bounds (state_after (call (with_parameters fresh_1x2) (PreSpikes (Tensor [1] [True]) 10)))"
  by (simp add: eval_defs)

end
